theory Spec2Isabelle
  imports Complex_Main
begin

section \<open>Data model\<close>

text \<open>
  The embedding follows \<^verbatim>\<open>src/torchfcpe/models_infer.py\<close>.

  A frequency sequence is a tensor of shape \<open>(B, T, 1)\<close>. The source's
  \<^verbatim>\<open>if notes[:, t, c] <= 0\<close> takes the truth value of a tensor with \<open>B\<close> elements and
  \<^verbatim>\<open>f0s[:, t - i, min_indices]\<close> indexes with a tensor of \<open>B\<close> indices, which PyTorch
  accepts for a single batch item; the unit test of the source calls \<^verbatim>\<open>infer\<close> on
  \<^verbatim>\<open>torch.tensor(wav).unsqueeze(0)\<close>. The embedding is that of batch size 1: a tensor
  is the list of the \<open>T\<close> values of its single batch item.

  Its entries are real numbers: the arithmetic of the model is exact, rounding is not
  modelled. Hz values are never negative in the source's data; on a negative value
  \<^verbatim>\<open>torch.log2\<close> yields NaN, which the model does not represent.
\<close>

datatype error = AssertionError | IndexError | RuntimeError | TypeError

type_synonym tensor = "real list"

section \<open>The function \<^verbatim>\<open>ensemble_f0\<close>\<close>

subsection \<open>Conversion of f0 to note\<close>

text \<open>\<^verbatim>\<open>f0 = f0 / (2 ** (key_shift / 12))\<close>\<close>

definition compensate :: "real \<Rightarrow> real \<Rightarrow> real" where
  "compensate f0 key_shift = f0 / (2 powr (key_shift / 12))"

text \<open>
  \<^verbatim>\<open>f0 = f0 + (f0 == 0) * 1e-6; note = torch.log2(f0 / 440) * 12 + 69; note[note < 0] = 0\<close>
\<close>

definition note_of :: "real \<Rightarrow> real" where
  "note_of f0 =
     (let f0' = f0 + (if f0 = 0 then 1 else 0) * (1 / 10 ^ 6);
          note = log 2 (f0' / 440) * 12 + 69
      in if note < 0 then 0 else note)"

text \<open>
  The first loop runs over \<^verbatim>\<open>zip(f0_list, key_shift_list)\<close>. It stores the compensated
  sequence back into \<^verbatim>\<open>f0_list[idx]\<close> and appends its notes to \<^verbatim>\<open>note_list\<close>. Entries
  of \<^verbatim>\<open>f0_list\<close> beyond the length of \<^verbatim>\<open>key_shift_list\<close> are not visited.
\<close>

definition compensated :: "tensor list \<Rightarrow> real list \<Rightarrow> tensor list" where
  "compensated f0_list key_shift_list =
     map (\<lambda>(f0, key_shift). map (\<lambda>x. compensate x key_shift) f0) (zip f0_list key_shift_list)
     @ drop (length key_shift_list) f0_list"

definition note_list :: "tensor list \<Rightarrow> real list \<Rightarrow> tensor list" where
  "note_list f0_list key_shift_list =
     map (\<lambda>(f0, key_shift). map (\<lambda>x. note_of (compensate x key_shift)) f0)
       (zip f0_list key_shift_list)"

subsection \<open>Tensor operations\<close>

text \<open>
  \<^verbatim>\<open>torch.cat(xs, dim=-1)\<close> of tensors of shape \<open>(1, T, 1)\<close>: the result has shape
  \<open>(1, T, C)\<close> and is kept as its \<open>T\<close> rows of \<open>C\<close> entries. An empty list and tensors
  that differ in the number of frames are refused.
\<close>

definition cat :: "tensor list \<Rightarrow> error + real list list" where
  "cat xs =
     (case xs of
        [] \<Rightarrow> Inl RuntimeError
      | x # _ \<Rightarrow>
          if list_all (\<lambda>y. length y = length x) xs
          then Inr (map (\<lambda>t. map (\<lambda>y. y ! t) xs) [0..<length x])
          else Inl RuntimeError)"

text \<open>
  \<^verbatim>\<open>torch.min(v, dim=-1)\<close>: the minimum and the index of its first occurrence
  (\<^verbatim>\<open>torch.argmin\<close> is its second component). The vector is never empty where the
  source calls it; the first equation only makes the function total.
\<close>

fun torch_min :: "real list \<Rightarrow> real \<times> nat" where
  "torch_min [] = (0, 0)"
| "torch_min [x] = (x, 0)"
| "torch_min (x # y # ys) =
     (let (m, i) = torch_min (y # ys) in if x \<le> m then (x, 0) else (m, Suc i))"

subsection \<open>Forward pass\<close>

text \<open>
  \<^verbatim>\<open>l2_distance = torch.pow((notes[:, t - 1, :] - notes[:, t, c]), 2) * is_voiced - 0.5;
  l2_distance *= l2_distance > 0\<close>, for one predecessor.
\<close>

definition l2_distance :: "real \<Rightarrow> real \<Rightarrow> real" where
  "l2_distance prev cur =
     (let l = (prev - cur) ^ 2 * (if prev > 0 then 1 else 0) - 1 / 2
      in l * (if l > 0 then 1 else 0))"

text \<open>
  The vector handed to \<^verbatim>\<open>torch.min\<close> for candidate \<open>c\<close> of frame \<open>t\<close>, whose note is
  \<open>n\<close>: \<^verbatim>\<open>dp[:, t - 1, :] + 1 * uv_penalty\<close> when the candidate is unvoiced, and
  \<^verbatim>\<open>dp[:, t - 1, :] + l2_distance + (~is_voiced) * uv_penalty * 2\<close> when it is voiced.
\<close>

definition candidates :: "real \<Rightarrow> real list \<Rightarrow> real list \<Rightarrow> real \<Rightarrow> real list" where
  "candidates uv_penalty dp_prev notes_prev n =
     (if n \<le> 0 then map (\<lambda>d. d + 1 * uv_penalty) dp_prev
      else map (\<lambda>(d, n'). d + l2_distance n' n + (if n' > 0 then 0 else 1) * uv_penalty * 2)
             (zip dp_prev notes_prev))"

text \<open>\<^verbatim>\<open>dp[:, 0, :] = (notes[:, 0, :] <= 0) * uv_penalty\<close>\<close>

definition dp_init :: "real \<Rightarrow> real list \<Rightarrow> real list" where
  "dp_init uv_penalty row = map (\<lambda>n. (if n \<le> 0 then 1 else 0) * uv_penalty) row"

text \<open>
  The loop \<^verbatim>\<open>for t in range(1, notes.size(1))\<close>: from the row of \<^verbatim>\<open>dp\<close> and of
  \<^verbatim>\<open>notes\<close> at frame \<open>t - 1\<close> it fills the rows of \<^verbatim>\<open>dp\<close> and \<^verbatim>\<open>backtrack\<close> at frame
  \<open>t\<close>. Within a frame each candidate reads frame \<open>t - 1\<close> only.
\<close>

fun forward :: "real \<Rightarrow> real list \<Rightarrow> real list \<Rightarrow> real list list \<Rightarrow> (real list \<times> nat list) list" where
  "forward uv_penalty dp_prev notes_prev [] = []"
| "forward uv_penalty dp_prev notes_prev (row # rows) =
     (let r = map (\<lambda>n. torch_min (candidates uv_penalty dp_prev notes_prev n)) row
      in (map fst r, map snd r) # forward uv_penalty (map fst r) row rows)"

text \<open>The tables \<^verbatim>\<open>dp\<close> and \<^verbatim>\<open>backtrack\<close> after the forward pass, row by row.\<close>

definition dp_table :: "real \<Rightarrow> real list list \<Rightarrow> real list list" where
  "dp_table uv_penalty notes =
     (case notes of
        [] \<Rightarrow> []
      | row # rows \<Rightarrow>
          dp_init uv_penalty row # map fst (forward uv_penalty (dp_init uv_penalty row) row rows))"

definition backtrack_table :: "real \<Rightarrow> real list list \<Rightarrow> nat list list" where
  "backtrack_table uv_penalty notes =
     (case notes of
        [] \<Rightarrow> []
      | row # rows \<Rightarrow>
          map (\<lambda>_. 0) row # map snd (forward uv_penalty (dp_init uv_penalty row) row rows))"

subsection \<open>Backtracking\<close>

text \<open>
  The loop \<^verbatim>\<open>for i in range(0, t + 1)\<close> walks the rows of \<^verbatim>\<open>backtrack\<close> from the last
  frame to the first; the argument list holds them in that order. It yields the index
  selected at each frame, last frame first.
\<close>

fun backtrack_from :: "nat list list \<Rightarrow> nat \<Rightarrow> nat list" where
  "backtrack_from [] i = []"
| "backtrack_from (b # bs) i = i # backtrack_from bs (b ! i)"

text \<open>The index selected at each frame, first frame first.\<close>

definition selected :: "real \<Rightarrow> real list list \<Rightarrow> nat list" where
  "selected uv_penalty notes =
     rev (backtrack_from (rev (backtrack_table uv_penalty notes))
            (snd (torch_min (last (dp_table uv_penalty notes)))))"

subsection \<open>The whole function\<close>

text \<open>
  \<^verbatim>\<open>dp[:, 0, :]\<close> raises IndexError when there is no frame. The result is
  \<^verbatim>\<open>f0_result\<close>, one value per frame, read from \<^verbatim>\<open>f0s = torch.cat(f0_list, dim=-1)\<close>,
  where \<^verbatim>\<open>f0_list\<close> is the list as the first loop left it.
\<close>

definition ensemble_f0 :: "tensor list \<Rightarrow> real list \<Rightarrow> real \<Rightarrow> error + tensor" where
  "ensemble_f0 f0_list key_shift_list tta_uv_penalty =
     (case cat (note_list f0_list key_shift_list) of
        Inl e \<Rightarrow> Inl e
      | Inr notes \<Rightarrow>
          if notes = [] then Inl IndexError
          else
            (case cat (compensated f0_list key_shift_list) of
               Inl e \<Rightarrow> Inl e
             | Inr f0s \<Rightarrow>
                 Inr (map2 (\<lambda>row i. row ! i) f0s (selected (tta_uv_penalty ^ 2) notes))))"

section \<open>The method \<^verbatim>\<open>InferCFNaiveMelPE.infer\<close>\<close>

subsection \<open>Collaborators and arguments\<close>

text \<open>
  What \<^verbatim>\<open>infer\<close> reads from outside this file is a parameter of the model:
  \<^item> \<open>forward_call\<close>: \<^verbatim>\<open>self.__call__(wav, sr, decoder_mode, threshold, key_shift)\<close> as a
    function of the key shift (the other four arguments are passed through unchanged);
  \<^item> \<open>model_f0_min\<close>: \<^verbatim>\<open>self.args_dict["model"]["f0_min"]\<close>;
  \<^item> \<open>batch_interp\<close>: \<^verbatim>\<open>batch_interp_with_replacement_detach\<close> of
    \<^verbatim>\<open>torch_interp\<close>, on the squeezed mask and sequence;
  \<^item> \<open>interpolate\<close>: \<^verbatim>\<open>torch.nn.functional.interpolate(x, size=n, mode="nearest")\<close>
    along the frame axis.
\<close>

record env =
  forward_call :: "real \<Rightarrow> tensor"
  model_f0_min :: real
  batch_interp :: "bool list \<Rightarrow> tensor \<Rightarrow> tensor"
  interpolate :: "tensor \<Rightarrow> int \<Rightarrow> error + tensor"

text \<open>
  A Python list is an object: \<^verbatim>\<open>tta_key_shifts\<close> is a reference to one, and
  \<^verbatim>\<open>list.sort\<close> changes the object. The store maps the address of each list object to
  its contents. The default value \<^verbatim>\<open>[0, -12, 12]\<close> of the parameter is one object,
  made when the method is defined and passed to every call that omits the argument.
\<close>

type_synonym addr = nat

type_synonym store = "addr \<Rightarrow> real list"

definition default_tta_key_shifts :: addr where
  "default_tta_key_shifts = 0"

definition initial_store :: store where
  "initial_store = (\<lambda>_. [])(default_tta_key_shifts := [0, - 12, 12])"

record infer_args =
  f0_min :: "real option"
  f0_max :: "real option"
  interp_uv :: bool
  output_interp_target_length :: "int option"
  retur_uv :: bool
  test_time_augmentation :: bool
  tta_uv_penalty :: real
  tta_key_shifts :: addr
  tta_use_origin_uv :: bool

text \<open>
  The arguments of a call that passes none of the optional parameters.
\<close>

definition default_args :: infer_args where
  "default_args =
     \<lparr>f0_min = None, f0_max = None, interp_uv = False, output_interp_target_length = None,
      retur_uv = False, test_time_augmentation = False, tta_uv_penalty = 12,
      tta_key_shifts = default_tta_key_shifts, tta_use_origin_uv = False\<rparr>"

text \<open>
  What a call leaves behind: the value it returns or the exception it raises, the
  store, and the key shifts of the calls it made to the model, in order.
\<close>

record outcome =
  returned :: "error + tensor \<times> tensor option"
  heap :: store
  extractions :: "real list"

subsection \<open>Post-processing\<close>

text \<open>The sort key \<^verbatim>\<open>lambda x: (x if x >= 0 else -x / 2)\<close>.\<close>

definition shift_key :: "real \<Rightarrow> real" where
  "shift_key x = (if x \<ge> 0 then x else - x / 2)"

text \<open>
  The product of two tensors of shapes \<open>(1, T, 1)\<close> and \<open>(1, T', 1)\<close>: elementwise when
  the frame counts agree, broadcast when one of them is 1, refused otherwise.
\<close>

definition broadcast_mul :: "tensor \<Rightarrow> tensor \<Rightarrow> error + tensor" where
  "broadcast_mul xs ys =
     (if length xs = length ys then Inr (map2 (*) xs ys)
      else if length xs = 1 then Inr (map (\<lambda>y. hd xs * y) ys)
      else if length ys = 1 then Inr (map (\<lambda>x. x * hd ys) xs)
      else Inl RuntimeError)"

text \<open>
  Lines 179 to 205 of the source: the voicing mask of \<^verbatim>\<open>f0_for_uv\<close>, the masked
  sequence, the optional gap filling, clamping and resampling, and the return value.
  \<^verbatim>\<open>int(output_interp_target_length)\<close> raises TypeError on \<^verbatim>\<open>None\<close>.
\<close>

definition postprocess :: "env \<Rightarrow> infer_args \<Rightarrow> tensor \<Rightarrow> tensor \<Rightarrow> error + tensor \<times> tensor option" where
  "postprocess env a f0 f0_for_uv =
     (let f0_min' = (case f0_min a of None \<Rightarrow> model_f0_min env | Some m \<Rightarrow> m);
          uv = map (\<lambda>x. if x < f0_min' then 1 else 0) f0_for_uv
      in case broadcast_mul f0 (map (\<lambda>u. 1 - u) uv) of
           Inl e \<Rightarrow> Inl e
         | Inr f1 \<Rightarrow>
             (let f2 = (if interp_uv a then batch_interp env (map (\<lambda>u. u \<noteq> 0) uv) f1 else f1);
                  f3 = (case f0_max a of None \<Rightarrow> f2
                        | Some m \<Rightarrow> map (\<lambda>x. if x > m then m else x) f2)
              in case (case output_interp_target_length a of
                         None \<Rightarrow> Inr f3
                       | Some n \<Rightarrow> interpolate env f3 n) of
                   Inl e \<Rightarrow> Inl e
                 | Inr f4 \<Rightarrow>
                     if retur_uv a then
                       (case output_interp_target_length a of
                          None \<Rightarrow> Inl TypeError
                        | Some n \<Rightarrow>
                            (case interpolate env uv n of
                               Inl e \<Rightarrow> Inl e
                             | Inr uv' \<Rightarrow> Inr (f4, Some uv')))
                     else Inr (f4, None)))"

subsection \<open>The whole method\<close>

text \<open>
  With test-time augmentation: the assertion, the sort of the list object in place, one
  call to the model per key shift, \<^verbatim>\<open>ensemble_f0\<close> (which leaves the compensated
  sequences in \<^verbatim>\<open>f0_list\<close>), and the choice of \<^verbatim>\<open>f0_for_uv\<close>. Without it: one call to
  the model, whose key shift defaults to 0.
\<close>

definition infer :: "env \<Rightarrow> infer_args \<Rightarrow> store \<Rightarrow> outcome" where
  "infer env a \<sigma> =
     (if test_time_augmentation a then
        (if length (\<sigma> (tta_key_shifts a)) > 0 then
           (let ks = sort_key shift_key (\<sigma> (tta_key_shifts a));
                \<sigma>' = \<sigma>(tta_key_shifts a := ks);
                f0_list = map (forward_call env) ks
            in case ensemble_f0 f0_list ks (tta_uv_penalty a) of
                 Inl e \<Rightarrow> \<lparr>returned = Inl e, heap = \<sigma>', extractions = ks\<rparr>
               | Inr f0 \<Rightarrow>
                   if tta_use_origin_uv a then
                     if ks ! 0 = 0 then
                       \<lparr>returned = postprocess env a f0 (compensated f0_list ks ! 0),
                        heap = \<sigma>', extractions = ks\<rparr>
                     else
                       \<lparr>returned = postprocess env a f0 (forward_call env 0),
                        heap = \<sigma>', extractions = ks @ [0]\<rparr>
                   else \<lparr>returned = postprocess env a f0 f0, heap = \<sigma>', extractions = ks\<rparr>)
         else \<lparr>returned = Inl AssertionError, heap = \<sigma>, extractions = []\<rparr>)
      else
        (let f0 = forward_call env 0
         in \<lparr>returned = postprocess env a f0 f0, heap = \<sigma>, extractions = [0]\<rparr>))"

subsection \<open>A stub model for the examples\<close>

text \<open>
  A model that hears 440 Hz at the first of two frames, shifted by the key shift it is
  called with, and nothing at the second; its voicing floor is 80 Hz. Gap filling is the
  identity and resampling picks the nearest frame to the left.
\<close>

definition stub_env :: env where
  "stub_env =
     \<lparr>forward_call = (\<lambda>key_shift. [440 * 2 powr (key_shift / 12), 0]),
      model_f0_min = 80,
      batch_interp = (\<lambda>mask f0. f0),
      interpolate = (\<lambda>x n. if n \<le> 0 \<or> x = [] then Inl RuntimeError
                            else Inr (map (\<lambda>i. x ! (i * length x div nat n)) [0..<nat n]))\<rparr>"

section \<open>The penalty model of the decoder\<close>

text \<open>
  The penalty of arriving at a candidate with note \<open>cur\<close> from a predecessor with note
  \<open>prev\<close>: one \<open>uv_penalty\<close> for an unvoiced candidate; for a voiced candidate the
  squared distance beyond the dead zone of 0.5 after a voiced predecessor, and twice
  \<open>uv_penalty\<close> after an unvoiced one.
\<close>

definition arrival_cost :: "real \<Rightarrow> real \<Rightarrow> real \<Rightarrow> real" where
  "arrival_cost uv_penalty prev cur =
     (if cur \<le> 0 then uv_penalty
      else if prev > 0 then max 0 ((prev - cur) ^ 2 - 1 / 2)
      else 2 * uv_penalty)"






text \<open>
  The path that the rows \<open>0\<close> to \<open>t\<close> of a backtrack table give when followed back from
  candidate \<open>c\<close> of frame \<open>t\<close>, first frame first.
\<close>

fun trace :: "nat list list \<Rightarrow> nat \<Rightarrow> nat \<Rightarrow> nat list" where
  "trace bt 0 c = [c]"
| "trace bt (Suc t) c = trace bt t (bt ! Suc t ! c) @ [c]"

section \<open>Properties of the tensor operations and of the tables\<close>


lemma note_of_zero: "note_of 0 = 0"
proof -
  have "log 2 ((1 / 10 ^ 6) / 440) < - 6"
    by (subst log_less_iff) (simp_all add: powr_minus_divide)
  then show ?thesis by (simp add: note_of_def Let_def)
qed

lemma note_of_nonneg: "0 \<le> note_of x"
  by (simp add: note_of_def Let_def)

lemma note_of_440: "note_of 440 = 69"
  by (simp add: note_of_def Let_def)

lemma note_of_220: "note_of 220 = 57"
proof -
  have "log 2 (1 / 2) = log 2 (2 powr (- 1))" by (simp add: powr_minus_divide)
  also have "\<dots> = - 1" by (subst log_powr_cancel) simp_all
  finally show ?thesis by (simp add: note_of_def Let_def)
qed


lemma compensate_zero_shift: "compensate x 0 = x"
  by (simp add: compensate_def)


lemma torch_min_props:
  "xs \<noteq> [] \<Longrightarrow>
     snd (torch_min xs) < length xs \<and> xs ! snd (torch_min xs) = fst (torch_min xs)
     \<and> (\<forall>j<length xs. fst (torch_min xs) \<le> xs ! j)"
proof (induction xs rule: torch_min.induct)
  case 1
  then show ?case by simp
next
  case (2 x)
  then show ?case by simp
next
  case (3 x y ys)
  then show ?case
    by (auto simp: split_beta Let_def nth_Cons split: nat.splits)
qed

lemma torch_min_single: "snd (torch_min [x]) = 0"
  by simp

lemma length_forward: "length (forward uv d np rows) = length rows"
  by (induction rows arbitrary: d np) (simp_all add: Let_def)

lemma forward_nth:
  "k < length rows \<Longrightarrow>
   forward uv d np rows ! k =
     (map (\<lambda>n. fst (torch_min (candidates uv ((d # map fst (forward uv d np rows)) ! k) ((np # rows) ! k) n))) (rows ! k),
      map (\<lambda>n. snd (torch_min (candidates uv ((d # map fst (forward uv d np rows)) ! k) ((np # rows) ! k) n))) (rows ! k))"
proof (induction rows arbitrary: d np k)
  case Nil
  then show ?case by simp
next
  case (Cons row rows)
  show ?case
  proof (cases k)
    case 0
    then show ?thesis by (simp add: Let_def comp_def)
  next
    case (Suc j)
    with Cons.prems have j: "j < length rows" by simp
    show ?thesis
      using Cons.IH [OF j] Suc by (simp add: Let_def comp_def)
  qed
qed

lemma length_dp_table: "length (dp_table uv notes) = length notes"
  by (simp add: dp_table_def length_forward split: list.splits)

lemma length_backtrack_table: "length (backtrack_table uv notes) = length notes"
  by (simp add: backtrack_table_def length_forward split: list.splits)


lemma dp_table_Suc:
  "Suc t < length notes \<Longrightarrow>
   dp_table uv notes ! Suc t =
     map (\<lambda>n. fst (torch_min (candidates uv (dp_table uv notes ! t) (notes ! t) n))) (notes ! Suc t)"
  by (cases "notes") (simp_all add: dp_table_def forward_nth length_forward)

lemma backtrack_table_Suc:
  "Suc t < length notes \<Longrightarrow>
   backtrack_table uv notes ! Suc t =
     map (\<lambda>n. snd (torch_min (candidates uv (dp_table uv notes ! t) (notes ! t) n))) (notes ! Suc t)"
  by (cases "notes") (simp_all add: dp_table_def backtrack_table_def forward_nth length_forward)


lemma cat_Inr:
  "cat xs = Inr rows \<Longrightarrow> xs \<noteq> [] \<and> (\<forall>x\<in>set xs. length x = length rows)"
  by (auto simp: cat_def list_all_iff split: list.splits if_splits)

lemma cat_nth:
  "cat xs = Inr rows \<Longrightarrow> t < length rows \<Longrightarrow> rows ! t = map (\<lambda>y. y ! t) xs"
  by (auto simp: cat_def split: list.splits if_splits)

lemma cat_rect:
  "cat xs = Inr rows \<Longrightarrow> \<forall>row\<in>set rows. length row = length xs"
  by (auto simp: cat_def split: list.splits if_splits)


lemma length_trace: "length (trace bt t c) = Suc t"
  by (induction t arbitrary: c) simp_all


lemma trace_backtrack:
  "t < length bt \<Longrightarrow> rev (backtrack_from (rev (take (Suc t) bt)) c) = trace bt t c"
proof (induction t arbitrary: c)
  case 0
  then show ?case by (cases bt) simp_all
next
  case (Suc t)
  then have "take (Suc (Suc t)) bt = take (Suc t) bt @ [bt ! Suc t]"
    by (simp add: take_Suc_conv_app_nth)
  with Suc show ?case by simp
qed

lemma selected_trace:
  assumes "notes \<noteq> []"
  shows "selected uv notes =
           trace (backtrack_table uv notes) (length notes - 1)
             (snd (torch_min (dp_table uv notes ! (length notes - 1))))"
proof -
  have l: "length (backtrack_table uv notes) = length notes" "length (dp_table uv notes) = length notes"
    by (simp_all add: length_backtrack_table length_dp_table)
  with assms have ne: "dp_table uv notes \<noteq> []" by auto
  have "take (Suc (length notes - 1)) (backtrack_table uv notes) = backtrack_table uv notes"
    using l by simp
  moreover have "length notes - 1 < length (backtrack_table uv notes)"
    using assms l by (cases "notes") simp_all
  ultimately show ?thesis
    using trace_backtrack [of "length notes - 1" "backtrack_table uv notes"] ne l
    by (simp add: selected_def last_conv_nth)
qed

lemma length_candidates:
  "length dprev = C \<Longrightarrow> length nprev = C \<Longrightarrow> length (candidates uv dprev nprev n) = C"
  by (simp add: candidates_def)

lemma dp_row_length:
  assumes "\<forall>row\<in>set notes. length row = C" "t < length notes"
  shows "length (dp_table uv notes ! t) = C"
proof (cases t)
  case 0
  with assms show ?thesis by (cases "notes") (simp_all add: dp_table_def dp_init_def)
next
  case (Suc k)
  with assms show ?thesis by (simp add: dp_table_Suc)
qed

lemma backtrack_bound:
  assumes "\<forall>row\<in>set notes. length row = C" "Suc t < length notes" "c < C"
  shows "backtrack_table uv notes ! Suc t ! c < C"
proof -
  let ?cand = "candidates uv (dp_table uv notes ! t) (notes ! t) (notes ! Suc t ! c)"
  have "length ?cand = C"
    using assms by (intro length_candidates dp_row_length [of _ C]) simp_all
  with assms(3) have "?cand \<noteq> []" by auto
  from torch_min_props [OF this] \<open>length ?cand = C\<close> have "snd (torch_min ?cand) < C" by simp
  with assms show ?thesis by (simp add: backtrack_table_Suc)
qed

lemma trace_bound:
  assumes "\<forall>row\<in>set notes. length row = C" "t < length notes" "c < C" "k \<le> t"
  shows "trace (backtrack_table uv notes) t c ! k < C"
  using assms(2-)
proof (induction t arbitrary: c)
  case 0
  then show ?case by simp
next
  case (Suc t)
  show ?case
  proof (cases "k = Suc t")
    case True
    with Suc.prems show ?thesis by (simp add: nth_append length_trace)
  next
    case False
    with Suc.prems have k: "k \<le> t" by simp
    have "backtrack_table uv notes ! Suc t ! c < C"
      using assms(1) Suc.prems by (intro backtrack_bound) simp_all
    from Suc.IH [OF _ this k] Suc.prems k show ?thesis
      by (simp add: nth_append length_trace)
  qed
qed

lemma selected_props:
  assumes "\<forall>row\<in>set notes. length row = C" "notes \<noteq> []" "0 < C"
  shows "length (selected uv notes) = length notes"
    and "t < length notes \<Longrightarrow> selected uv notes ! t < C"
proof -
  let ?T = "length notes - 1"
  have T: "?T < length notes" using assms(2) by (cases "notes") simp_all
  have "length (dp_table uv notes ! ?T) = C" using assms(1) T by (rule dp_row_length)
  with assms(3) have ne: "dp_table uv notes ! ?T \<noteq> []" by auto
  from torch_min_props [OF ne] \<open>length (dp_table uv notes ! ?T) = C\<close>
  have c: "snd (torch_min (dp_table uv notes ! ?T)) < C" by simp
  show "length (selected uv notes) = length notes"
    using T by (simp add: selected_trace [OF assms(2)] length_trace)
  show "selected uv notes ! t < C" if "t < length notes"
    using trace_bound [OF assms(1) T c, of t uv] that
    by (simp add: selected_trace [OF assms(2)])
qed


lemma length_note_list:
  "length (note_list f0_list ks) = min (length f0_list) (length ks)"
  by (simp add: note_list_def)

lemma length_compensated:
  "length (compensated f0_list ks) = length f0_list"
  by (simp add: compensated_def)

lemma compensated_nth:
  "c < length f0_list \<Longrightarrow> c < length ks \<Longrightarrow>
   compensated f0_list ks ! c = map (\<lambda>x. compensate x (ks ! c)) (f0_list ! c)"
  by (simp add: compensated_def nth_append)

lemma note_list_nth:
  "c < length f0_list \<Longrightarrow> c < length ks \<Longrightarrow>
   note_list f0_list ks ! c = map (\<lambda>x. note_of (compensate x (ks ! c))) (f0_list ! c)"
  by (simp add: note_list_def)

lemma cat_length:
  "cat xs = Inr rows \<Longrightarrow> length rows = length (xs ! 0)"
  by (auto simp: cat_def split: list.splits if_splits)

lemma ensemble_f0_Inr:
  assumes "ensemble_f0 f0_list ks p = Inr out"
  obtains ns f0s where "cat (note_list f0_list ks) = Inr ns" "ns \<noteq> []"
    "cat (compensated f0_list ks) = Inr f0s"
    "out = map2 (\<lambda>row i. row ! i) f0s (selected (p ^ 2) ns)"
  using assms by (auto simp: ensemble_f0_def split: sum.splits if_splits)

lemma frames_agree:
  assumes "cat (note_list f0_list ks) = Inr ns" "cat (compensated f0_list ks) = Inr f0s"
  shows "length f0s = length ns"
proof -
  from cat_Inr [OF assms(1)] have "note_list f0_list ks \<noteq> []" by simp
  then have c: "0 < length f0_list" "0 < length ks"
    using length_note_list [of f0_list ks] by auto
  have "length ns = length (note_list f0_list ks ! 0)" using assms(1) by (rule cat_length)
  also have "\<dots> = length (f0_list ! 0)" using c by (simp add: note_list_nth)
  also have "\<dots> = length (compensated f0_list ks ! 0)" using c by (simp add: compensated_nth)
  also have "\<dots> = length f0s" using assms(2) by (simp add: cat_length)
  finally show ?thesis by simp
qed

lemma emitted_nth:
  assumes "ensemble_f0 f0_list ks p = Inr out"
      and "cat (note_list f0_list ks) = Inr ns"
      and "t < length out"
      and "c = selected (p ^ 2) ns ! t"
  shows "length out = length ns \<and> c < length f0_list \<and> c < length ks
         \<and> t < length (f0_list ! c)
         \<and> out ! t = compensate (f0_list ! c ! t) (ks ! c)"
proof -
  from assms(1) obtain ns' f0s where e: "cat (note_list f0_list ks) = Inr ns'" "ns' \<noteq> []"
    "cat (compensated f0_list ks) = Inr f0s"
    "out = map2 (\<lambda>row i. row ! i) f0s (selected (p ^ 2) ns')"
    by (rule ensemble_f0_Inr)
  with assms(2) have [simp]: "ns' = ns" by simp
  have rect: "\<forall>row\<in>set ns. length row = length (note_list f0_list ks)"
    using assms(2) by (rule cat_rect)
  have pos: "0 < length (note_list f0_list ks)" using cat_Inr [OF assms(2)] by simp
  have ls: "length (selected (p ^ 2) ns) = length ns"
    using selected_props(1) [OF rect _ pos] e(2) by simp
  have lf: "length f0s = length ns" using frames_agree [OF assms(2) e(3)] .
  have lo: "length out = length ns" using e(4) ls lf by simp
  with assms(3) have t: "t < length ns" by simp
  have "c < length (note_list f0_list ks)"
    using selected_props(2) [OF rect _ pos t] e(2) assms(4) by simp
  then have c: "c < length f0_list" "c < length ks" by (simp_all add: length_note_list)
  have "length (compensated f0_list ks ! c) = length f0s"
    using cat_Inr [OF e(3)] c by (simp add: length_compensated)
  then have tc: "t < length (f0_list ! c)" using c lf t by (simp add: compensated_nth)
  have "out ! t = f0s ! t ! c" using e(4) ls lf t assms(4) by simp
  also have "f0s ! t = map (\<lambda>y. y ! t) (compensated f0_list ks)"
    using e(3) lf t by (simp add: cat_nth)
  also have "\<dots> ! c = compensate (f0_list ! c ! t) (ks ! c)"
    using c tc by (simp add: length_compensated compensated_nth)
  finally show ?thesis using lo c tc by simp
qed

section \<open>Claims about \<^verbatim>\<open>ensemble_f0\<close>\<close>

text \<open>
  Claim C1, as the code has it. The first loop stores the compensated sequence back into
  \<^verbatim>\<open>f0_list[idx]\<close>, and the backtracking loop reads \<^verbatim>\<open>f0s = torch.cat(f0_list, dim=-1)\<close>.
  So whenever \<^verbatim>\<open>ensemble_f0\<close> returns, the output has one value per frame, and the
  value at frame \<open>t\<close> is the Hz value of the hypothesis \<open>c\<close> selected at that frame
  divided by \<open>2 ^ (key_shift c / 12)\<close>: the compensated value, not the original one.
\<close>

theorem ensemble_f0_emits_compensated:
  assumes "ensemble_f0 f0_list ks p = Inr out"
      and "cat (note_list f0_list ks) = Inr ns"
      and "t < length out"
      and "c = selected (p ^ 2) ns ! t"
  shows "length out = length ns \<and> c < length f0_list \<and> c < length ks
         \<and> t < length (f0_list ! c)
         \<and> out ! t = compensate (f0_list ! c ! t) (ks ! c)"
  using assms by (rule emitted_nth)

theorem ensemble_f0_emits_compensated_witness:
  "ensemble_f0 [[440]] [12] 12 = Inr [220]
   \<and> cat (note_list [[440]] [12]) = Inr [[57]]
   \<and> selected (12 ^ 2) [[57]] ! 0 = 0
   \<and> [220] ! 0 = compensate ([[440]] ! 0 ! 0) ([12] ! 0)"
proof -
  have e: "ensemble_f0 [[440]] [12] 12 = Inr [220]"
    by (simp add: ensemble_f0_def note_list_def compensated_def cat_def selected_def
        dp_table_def backtrack_table_def dp_init_def compensate_def)
  have n: "cat (note_list [[440]] [12]) = Inr [[57]]"
    by (simp add: note_list_def cat_def compensate_def note_of_220)
  have t: "0 < length [220 :: real]"
    by simp
  have s: "(0::nat) = selected (12 ^ 2) [[57]] ! 0"
    by (simp add: selected_def dp_table_def backtrack_table_def dp_init_def)
  note th = ensemble_f0_emits_compensated [OF e n t s]
  from th have v: "[220] ! 0 = compensate ([[440]] ! 0 ! 0) ([12] ! 0)"
    by (elim conjE)
  from e n s [symmetric] v show ?thesis
    by (intro conjI)
qed

text \<open>
  Claim C1 as stated fails: the single hypothesis 440 Hz taken at a key shift of 12
  semitones is emitted as 220 Hz, not as the original 440 Hz.
\<close>

theorem ensemble_f0_emits_original_counterexample:
  "ensemble_f0 [[440]] [12] 12 = Inr [220] \<and> ensemble_f0 [[440]] [12] 12 \<noteq> Inr [440]"
  by (simp add: ensemble_f0_def note_list_def compensated_def cat_def selected_def
      dp_table_def backtrack_table_def dp_init_def compensate_def)




section \<open>Further properties of the tables\<close>


lemma cand_cost:
  assumes "c' < length dprev" "length nprev = length dprev"
  shows "candidates uv dprev nprev n ! c' = dprev ! c' + arrival_cost uv (nprev ! c') n"
  using assms by (simp add: candidates_def l2_distance_def arrival_cost_def Let_def max_def)

lemma notes_onset_example: "cat (note_list [[0, 440]] [0]) = Inr [[0], [69]]"
  by (simp add: note_list_def cat_def compensate_zero_shift note_of_zero note_of_440 upt_rec)


















section \<open>Further claims about \<^verbatim>\<open>ensemble_f0\<close>\<close>



text \<open>
  Claim C3, as the code has it. For a frame \<open>t + 1\<close> and a voiced candidate \<open>c\<close>, the
  entries of \<^verbatim>\<open>dp\<close> and \<^verbatim>\<open>backtrack\<close> are the minimum and its first index of the vector
  of accumulated penalties, and the entry of that vector for an unvoiced predecessor
  \<open>c'\<close> is \<open>dp[t, c'] + 2 * uv_penalty\<close>: the transition costs exactly twice the
  unvoiced penalty, because the squared distance is multiplied by \<^verbatim>\<open>is_voiced\<close> before
  the dead zone is taken off, and no distance term is left.
\<close>

theorem unvoiced_predecessor_cost:
  assumes "cat (note_list f0_list ks) = Inr ns"
      and "Suc t < length ns" "c < length (ns ! Suc t)" "c' < length (ns ! t)"
      and "ns ! Suc t ! c > 0" "ns ! t ! c' \<le> 0"
  shows "dp_table uv ns ! Suc t ! c
           = fst (torch_min (candidates uv (dp_table uv ns ! t) (ns ! t) (ns ! Suc t ! c)))
         \<and> backtrack_table uv ns ! Suc t ! c
           = snd (torch_min (candidates uv (dp_table uv ns ! t) (ns ! t) (ns ! Suc t ! c)))
         \<and> candidates uv (dp_table uv ns ! t) (ns ! t) (ns ! Suc t ! c) ! c'
           = dp_table uv ns ! t ! c' + 2 * uv"
proof -
  have rect: "\<forall>row\<in>set ns. length row = length (note_list f0_list ks)"
    using assms(1) by (rule cat_rect)
  have t: "t < length ns" using assms(2) by simp
  have l: "length (dp_table uv ns ! t) = length (note_list f0_list ks)"
    using rect t by (rule dp_row_length)
  have l': "length (ns ! t) = length (note_list f0_list ks)" using rect t by simp
  have "candidates uv (dp_table uv ns ! t) (ns ! t) (ns ! Suc t ! c) ! c'
          = dp_table uv ns ! t ! c' + arrival_cost uv (ns ! t ! c') (ns ! Suc t ! c)"
    using assms(4) l l' by (intro cand_cost) simp_all
  also have "arrival_cost uv (ns ! t ! c') (ns ! Suc t ! c) = 2 * uv"
    using assms(5,6) by (simp add: arrival_cost_def)
  finally show ?thesis using assms(2,3) by (simp add: dp_table_Suc backtrack_table_Suc)
qed

theorem unvoiced_predecessor_cost_witness:
  "dp_table 144 [[0], [69]] ! Suc 0 ! 0 = 432 \<and> backtrack_table 144 [[0], [69]] ! Suc 0 ! 0 = 0
   \<and> candidates 144 (dp_table 144 [[0], [69]] ! 0) ([[0], [69]] ! 0) ([[0], [69]] ! Suc 0 ! 0) ! 0
       = dp_table 144 [[0], [69]] ! 0 ! 0 + 2 * 144"
proof -
  have c: "candidates 144 (dp_table 144 [[0], [69]] ! 0) [0] 69 = [432]"
    by (simp add: dp_table_def dp_init_def candidates_def l2_distance_def)
  show ?thesis
    using unvoiced_predecessor_cost [OF notes_onset_example, of 0 0 0 144] by (simp add: c)
qed

text \<open>
  Claim C3 as stated fails. The single hypothesis \<open>[0, 440]\<close> Hz at key shift 0 has the
  notes 0 and 69. With \<open>uv_penalty = 144\<close> the accumulated penalty of reaching the
  voiced frame 1 from the unvoiced frame 0 is \<open>dp[0, 0] + 2 * 144\<close>; the dead-zone term
  \<open>max 0 ((0 - 69)\<^sup>2 - 0.5)\<close> of the claim is not part of it.
\<close>

theorem unvoiced_predecessor_cost_counterexample:
  "cat (note_list [[0, 440]] [0]) = Inr [[0], [69]]
   \<and> candidates 144 (dp_table 144 [[0], [69]] ! 0) ([[0], [69]] ! 0) ([[0], [69]] ! 1 ! 0) ! 0
       = dp_table 144 [[0], [69]] ! 0 ! 0 + 2 * 144
   \<and> candidates 144 (dp_table 144 [[0], [69]] ! 0) ([[0], [69]] ! 0) ([[0], [69]] ! 1 ! 0) ! 0
       \<noteq> dp_table 144 [[0], [69]] ! 0 ! 0 + (max 0 (([[0], [69]] ! 0 ! 0 - [[0], [69]] ! 1 ! 0) ^ 2 - 0.5) + 2 * 144)"
  by (simp add: notes_onset_example dp_table_def dp_init_def candidates_def l2_distance_def)


section \<open>Optimality of the decoded path\<close>







section \<open>Claims about \<^verbatim>\<open>infer\<close>\<close>

lemma infer_heap:
  "heap (infer env a \<sigma>) =
     (if test_time_augmentation a
      then \<sigma>(tta_key_shifts a := sort_key shift_key (\<sigma> (tta_key_shifts a)))
      else \<sigma>)"
  by (cases "\<sigma> (tta_key_shifts a)")
     (auto simp: infer_def Let_def split: sum.splits)

lemma infer_extractions:
  assumes "test_time_augmentation a" "\<sigma> (tta_key_shifts a) \<noteq> []"
  shows "take (length (\<sigma> (tta_key_shifts a))) (extractions (infer env a \<sigma>))
           = sort_key shift_key (\<sigma> (tta_key_shifts a))"
  using assms by (auto simp: infer_def Let_def split: sum.splits)

lemma sorted_default: "sort_key shift_key [0, - 12, 12] = [0, - 12, 12]"
  by (simp add: shift_key_def)

lemma postprocess_retur_uv:
  assumes "retur_uv a" "output_interp_target_length a = None"
  shows "postprocess env a f0 f0_for_uv \<noteq> Inr r"
  using assms by (auto simp: postprocess_def Let_def split: sum.splits option.splits)

lemma infer_retur_uv_never_returns:
  assumes "retur_uv a" "output_interp_target_length a = None"
  shows "returned (infer env a \<sigma>) \<noteq> Inr r"
  using postprocess_retur_uv [OF assms]
  by (auto simp: infer_def Let_def split: sum.splits)

text \<open>
  Claim C8: with test-time augmentation requested and an empty list of key shifts,
  \<^verbatim>\<open>assert len(tta_key_shifts) > 0\<close> fails, and the model has not been called.
\<close>

theorem infer_empty_key_shifts:
  assumes "test_time_augmentation a" "\<sigma> (tta_key_shifts a) = []"
  shows "returned (infer env a \<sigma>) = Inl AssertionError \<and> extractions (infer env a \<sigma>) = []"
  using assms by (simp add: infer_def)

theorem infer_empty_key_shifts_witness:
  "test_time_augmentation (default_args\<lparr>test_time_augmentation := True, tta_key_shifts := 1\<rparr>)
   \<and> initial_store (tta_key_shifts (default_args\<lparr>test_time_augmentation := True, tta_key_shifts := 1\<rparr>)) = []
   \<and> returned (infer stub_env (default_args\<lparr>test_time_augmentation := True, tta_key_shifts := 1\<rparr>) initial_store)
       = Inl AssertionError
   \<and> extractions (infer stub_env (default_args\<lparr>test_time_augmentation := True, tta_key_shifts := 1\<rparr>) initial_store)
       = []"
proof -
  have t: "test_time_augmentation (default_args\<lparr>test_time_augmentation := True, tta_key_shifts := 1\<rparr>)"
    by simp
  have e: "initial_store (tta_key_shifts (default_args\<lparr>test_time_augmentation := True, tta_key_shifts := 1\<rparr>)) = []"
    by (simp add: initial_store_def default_tta_key_shifts_def)
  from infer_empty_key_shifts [of "default_args\<lparr>test_time_augmentation := True, tta_key_shifts := 1\<rparr>" initial_store stub_env, OF t e] t e show ?thesis
    by (intro conjI) simp_all
qed

text \<open>
  Claim C10: a call with test-time augmentation leaves the store as it was, except that
  the list object passed as \<^verbatim>\<open>tta_key_shifts\<close> holds its elements in the order of the
  sort key. The default list is such an object; it is \<open>[0, -12, 12]\<close> and already in
  that order. Every other list object is unchanged, and the other arguments are
  values, which a call cannot change.
\<close>

theorem infer_sorts_in_place:
  assumes "test_time_augmentation a"
  shows "heap (infer env a \<sigma>)
           = \<sigma>(tta_key_shifts a := sort_key shift_key (\<sigma> (tta_key_shifts a)))"
  using assms by (simp add: infer_heap)

theorem infer_sorts_in_place_witness:
  "heap (infer stub_env (default_args\<lparr>test_time_augmentation := True\<rparr>) initial_store)
     = initial_store(default_tta_key_shifts := [0, - 12, 12])
   \<and> heap (infer stub_env (default_args\<lparr>test_time_augmentation := True, tta_key_shifts := 1\<rparr>)
             (initial_store(1 := [12, - 12, 0])))
     = initial_store(1 := [0, - 12, 12])"
proof -
  have a: "heap (infer stub_env (default_args\<lparr>test_time_augmentation := True\<rparr>) initial_store)
     = initial_store(default_tta_key_shifts := [0, - 12, 12])"
    using infer_sorts_in_place [of "default_args\<lparr>test_time_augmentation := True\<rparr>" stub_env initial_store]
    by (simp add: default_args_def initial_store_def shift_key_def)
  have b: "heap (infer stub_env (default_args\<lparr>test_time_augmentation := True, tta_key_shifts := 1\<rparr>)
             (initial_store(1 := [12, - 12, 0])))
     = initial_store(1 := [0, - 12, 12])"
    using infer_sorts_in_place [of "default_args\<lparr>test_time_augmentation := True, tta_key_shifts := 1\<rparr>" stub_env "initial_store(1 := [12, - 12, 0])"]
    by (simp add: shift_key_def)
  from a b show ?thesis by simp
qed

text \<open>
  Claim C2, as the code has it. With test-time augmentation and a list of key shifts
  that is not empty, the model is called with the key shifts in the order of
  \<^verbatim>\<open>tta_key_shifts.sort(key=lambda x: (x if x >= 0 else -x / 2))\<close>, which is ascending
  in the key. The keys of 0, -12 and 12 are 0, 6 and 12, so the list \<open>[0, -12, 12]\<close>
  stays in the order 0, -12, 12: the negative shift comes before the positive one of
  equal magnitude.
\<close>

theorem infer_key_shift_order:
  assumes "test_time_augmentation a" "\<sigma> (tta_key_shifts a) = ks" "ks \<noteq> []"
  shows "take (length ks) (extractions (infer env a \<sigma>)) = sort_key shift_key ks
         \<and> sorted (map shift_key (sort_key shift_key ks))
         \<and> sort_key shift_key [0, - 12, 12] = [0, - 12, 12]"
proof (intro conjI)
  show "take (length ks) (extractions (infer env a \<sigma>)) = sort_key shift_key ks"
    using assms infer_extractions [of a \<sigma> env] by simp
  show "sorted (map shift_key (sort_key shift_key ks))"
    by (rule sorted_sort_key)
  show "sort_key shift_key [0, - 12, 12] = [0, - 12, 12]"
    by (rule sorted_default)
qed

theorem infer_key_shift_order_witness:
  "take 3 (extractions (infer stub_env (default_args\<lparr>test_time_augmentation := True\<rparr>) initial_store))
     = [0, - 12, 12]"
proof -
  have t: "test_time_augmentation (default_args\<lparr>test_time_augmentation := True\<rparr>)" by simp
  have k: "initial_store (tta_key_shifts (default_args\<lparr>test_time_augmentation := True\<rparr>)) = [0, - 12, 12]"
    by (simp add: default_args_def initial_store_def)
  have n: "[0, - 12, 12] \<noteq> ([]::real list)" by simp
  have l: "length [0, - 12, 12 :: real] = 3" by simp
  from infer_key_shift_order [of "default_args\<lparr>test_time_augmentation := True\<rparr>" initial_store "[0, - 12, 12]" stub_env, OF t k n,
      THEN conjunct1, unfolded l sorted_default]
  show ?thesis .
qed

text \<open>
  Claim C2 as stated fails: a call with test-time augmentation and the default key
  shifts calls the model with the key shifts 0, -12, 12 in this order, not 0, 12, -12.
\<close>

theorem infer_key_shift_order_counterexample:
  "take 3 (extractions (infer stub_env (default_args\<lparr>test_time_augmentation := True\<rparr>) initial_store))
     = [0, - 12, 12]
   \<and> take 3 (extractions (infer stub_env (default_args\<lparr>test_time_augmentation := True\<rparr>) initial_store))
     \<noteq> [0, 12, - 12]
   \<and> sort_key shift_key [0, - 12, 12] \<noteq> [0, 12, - 12]"
proof -
  have t: "test_time_augmentation (default_args\<lparr>test_time_augmentation := True\<rparr>)" by simp
  have k: "initial_store (tta_key_shifts (default_args\<lparr>test_time_augmentation := True\<rparr>)) = [0, - 12, 12]"
    by (simp add: default_args_def initial_store_def)
  then have n: "initial_store (tta_key_shifts (default_args\<lparr>test_time_augmentation := True\<rparr>)) \<noteq> []"
    by simp
  have l: "length [0, - 12, 12 :: real] = 3" by simp
  have x: "take 3 (extractions (infer stub_env (default_args\<lparr>test_time_augmentation := True\<rparr>) initial_store))
     = [0, - 12, 12]"
    using infer_extractions [of "default_args\<lparr>test_time_augmentation := True\<rparr>" initial_store stub_env, OF t n, unfolded k l sorted_default] .
  show ?thesis by (simp add: x shift_key_def)
qed

text \<open>
  Claim C5 fails on the code. A call that asks for the voicing mask and sets no target
  length reaches \<^verbatim>\<open>int(output_interp_target_length)\<close> with \<^verbatim>\<open>None\<close> and raises TypeError,
  where the frequency sequence is resampled only under
  \<^verbatim>\<open>if output_interp_target_length is not None\<close>.
\<close>

theorem infer_retur_uv_without_target_length:
  "returned (infer stub_env (default_args\<lparr>retur_uv := True\<rparr>) initial_store) = Inl TypeError"
  by (simp add: infer_def stub_env_def default_args_def postprocess_def broadcast_mul_def Let_def)

end
